theory Spec2Isabelle
  imports Main "HOL-Library.Word"
begin

unbundle bit_operations_syntax

section \<open>The C++ integer model\<close>

text \<open>
  The library works on the fixed-width integer types of \<^verbatim>\<open><cstdint>\<close>.  A value of
  such a type is its bit pattern, a word of the type's width; whether the type is signed
  is carried beside it.  The model fixes the data model of the supported platforms:
  \<^verbatim>\<open>CHAR_BIT\<close> is 8 (asserted in \<^verbatim>\<open>byte_order.cpp\<close>), \<^verbatim>\<open>int\<close> has 32 bits and
  \<^verbatim>\<open>std::size_t\<close> has 64 bits, both in two's complement (C++20).
\<close>

type_synonym u8 = "8 word"
type_synonym u16 = "16 word"
type_synonym u32 = "32 word"
type_synonym u64 = "64 word"
type_synonym size_t = "64 word"
type_synonym cint = "32 word"

datatype signedness = Unsigned | Signed

definition CHAR_BIT :: nat where
  "CHAR_BIT = 8"

text \<open>\<^verbatim>\<open>sizeof(T)\<close> for the type of the given value.\<close>

definition sizeof :: "'a::len word \<Rightarrow> nat" where
  "sizeof v = LENGTH('a) div CHAR_BIT"

text \<open>
  \<^verbatim>\<open>std::numeric_limits<T>::max()\<close>: all ones for an unsigned type, all ones below the
  sign bit for a signed one.
\<close>

definition numeric_limits_max :: "signedness \<Rightarrow> 'a::len word" where
  "numeric_limits_max sg = (case sg of Unsigned \<Rightarrow> - 1 | Signed \<Rightarrow> mask (LENGTH('a) - 1))"

text \<open>
  Integral promotion of an operand narrower than \<^verbatim>\<open>int\<close>: the value is kept, so an
  unsigned operand is zero-extended and a signed one sign-extended, and the result is
  an \<^verbatim>\<open>int\<close>.
\<close>

definition promote :: "signedness \<Rightarrow> 'a::len word \<Rightarrow> cint" where
  "promote sg v = (case sg of Unsigned \<Rightarrow> ucast v | Signed \<Rightarrow> scast v)"

text \<open>
  The built-in shifts on an operand of (promoted) type \<open>'p\<close>.  The behaviour is undefined
  when the count is not less than the width of the promoted left operand: this is the
  value \<open>None\<close>.  Otherwise \<^verbatim>\<open><<\<close> keeps the low bits of the product and \<^verbatim>\<open>>>\<close> is a
  logical shift on an unsigned operand and an arithmetic shift on a signed one.
\<close>

definition shl :: "'p::len word \<Rightarrow> size_t \<Rightarrow> 'p word option" where
  "shl a n = (if unat n < LENGTH('p) then Some (push_bit (unat n) a) else None)"

definition shr :: "signedness \<Rightarrow> 'p::len word \<Rightarrow> size_t \<Rightarrow> 'p word option" where
  "shr sg a n =
     (if unat n < LENGTH('p)
      then Some (case sg of Unsigned \<Rightarrow> drop_bit (unat n) a
                          | Signed \<Rightarrow> signed_drop_bit (unat n) a)
      else None)"


section \<open>Bit rotation (\<^verbatim>\<open>bit_rotation.h\<close>)\<close>

text \<open>
  The body of \<^verbatim>\<open>RotateLeft\<close>,
  \<^verbatim>\<open>((value << bits) | ((value & mask) >> (width - bits))) & mask\<close>,
  evaluated in the promoted operand type, whose signedness is \<open>sg\<close>.  The subtraction
  \<^verbatim>\<open>width - bits\<close> is one of \<^verbatim>\<open>std::size_t\<close> and wraps around.
\<close>

definition RotateLeft_promoted ::
  "signedness \<Rightarrow> 'p::len word \<Rightarrow> size_t \<Rightarrow> size_t \<Rightarrow> 'p word \<Rightarrow> 'p word option" where
  "RotateLeft_promoted sg v bits width msk =
     (case shl v bits of
        None \<Rightarrow> None
      | Some hi \<Rightarrow>
          (case shr sg (v AND msk) (width - bits) of
             None \<Rightarrow> None
           | Some lo \<Rightarrow> Some ((hi OR lo) AND msk)))"

text \<open>
  The template \<^verbatim>\<open>RotateLeft<T>\<close> at the type \<open>T\<close> of signedness \<open>sg\<close> and width
  \<open>LENGTH('a)\<close>.  An operand narrower than \<^verbatim>\<open>int\<close> is promoted to \<^verbatim>\<open>int\<close> and the
  result is converted back to \<open>T\<close>, which keeps its low bits.
\<close>

definition RotateLeft ::
  "signedness \<Rightarrow> 'a::len word \<Rightarrow> size_t \<Rightarrow> size_t \<Rightarrow> 'a word \<Rightarrow> 'a word option" where
  "RotateLeft sg v bits width msk =
     (if LENGTH('a) < 32
      then map_option ucast
             (RotateLeft_promoted Signed (promote sg v) bits width (promote sg msk))
      else RotateLeft_promoted sg v bits width msk)"

text \<open>
  The body of \<^verbatim>\<open>RotateRight\<close>,
  \<^verbatim>\<open>(((value & mask) >> bits) | (value << (width - bits))) & mask\<close>.
\<close>

definition RotateRight_promoted ::
  "signedness \<Rightarrow> 'p::len word \<Rightarrow> size_t \<Rightarrow> size_t \<Rightarrow> 'p word \<Rightarrow> 'p word option" where
  "RotateRight_promoted sg v bits width msk =
     (case shr sg (v AND msk) bits of
        None \<Rightarrow> None
      | Some lo \<Rightarrow>
          (case shl v (width - bits) of
             None \<Rightarrow> None
           | Some hi \<Rightarrow> Some ((lo OR hi) AND msk)))"

definition RotateRight ::
  "signedness \<Rightarrow> 'a::len word \<Rightarrow> size_t \<Rightarrow> size_t \<Rightarrow> 'a word \<Rightarrow> 'a word option" where
  "RotateRight sg v bits width msk =
     (if LENGTH('a) < 32
      then map_option ucast
             (RotateRight_promoted Signed (promote sg v) bits width (promote sg msk))
      else RotateRight_promoted sg v bits width msk)"

text \<open>
  A call that leaves out \<^verbatim>\<open>width\<close> and \<^verbatim>\<open>mask\<close> gets the default arguments
  \<^verbatim>\<open>sizeof(T) * CHAR_BIT\<close> and \<^verbatim>\<open>std::numeric_limits<T>::max()\<close>.
\<close>

definition RotateLeft_default :: "signedness \<Rightarrow> 'a::len word \<Rightarrow> size_t \<Rightarrow> 'a word option" where
  "RotateLeft_default sg v bits =
     RotateLeft sg v bits (of_nat (sizeof v * CHAR_BIT)) (numeric_limits_max sg)"

definition RotateRight_default :: "signedness \<Rightarrow> 'a::len word \<Rightarrow> size_t \<Rightarrow> 'a word option" where
  "RotateRight_default sg v bits =
     RotateRight sg v bits (of_nat (sizeof v * CHAR_BIT)) (numeric_limits_max sg)"

text \<open>
  The two formulas of the specification, read on the bit pattern of the operand type
  itself: \<^verbatim>\<open><<\<close> shifts within the type's width, \<^verbatim>\<open>>>\<close> is logical for an unsigned and
  arithmetic for a signed type, and the counts are natural numbers.
\<close>

definition shift_right_T :: "signedness \<Rightarrow> 'a::len word \<Rightarrow> nat \<Rightarrow> 'a word" where
  "shift_right_T sg a n =
     (case sg of Unsigned \<Rightarrow> drop_bit n a | Signed \<Rightarrow> signed_drop_bit n a)"

definition RotateLeft_formula ::
  "signedness \<Rightarrow> 'a::len word \<Rightarrow> nat \<Rightarrow> nat \<Rightarrow> 'a word \<Rightarrow> 'a word" where
  "RotateLeft_formula sg v bits width msk =
     (push_bit bits v OR shift_right_T sg (v AND msk) (width - bits)) AND msk"

definition RotateRight_formula ::
  "signedness \<Rightarrow> 'a::len word \<Rightarrow> nat \<Rightarrow> nat \<Rightarrow> 'a word \<Rightarrow> 'a word" where
  "RotateRight_formula sg v bits width msk =
     (shift_right_T sg (v AND msk) bits OR push_bit (width - bits) v) AND msk"


section \<open>Bit shifting (\<^verbatim>\<open>bit_shift.h\<close>)\<close>

text \<open>\<^verbatim>\<open>ShiftLeft\<close>: \<^verbatim>\<open>(value << bits) & mask\<close>.\<close>

definition ShiftLeft_promoted :: "'p::len word \<Rightarrow> size_t \<Rightarrow> 'p word \<Rightarrow> 'p word option" where
  "ShiftLeft_promoted v bits msk =
     (case shl v bits of None \<Rightarrow> None | Some s \<Rightarrow> Some (s AND msk))"

definition ShiftLeft ::
  "signedness \<Rightarrow> 'a::len word \<Rightarrow> size_t \<Rightarrow> 'a word \<Rightarrow> 'a word option" where
  "ShiftLeft sg v bits msk =
     (if LENGTH('a) < 32
      then map_option ucast (ShiftLeft_promoted (promote sg v) bits (promote sg msk))
      else ShiftLeft_promoted v bits msk)"

text \<open>\<^verbatim>\<open>ShiftRight\<close>: \<^verbatim>\<open>((value & mask) >> bits)\<close>.\<close>

definition ShiftRight_promoted ::
  "signedness \<Rightarrow> 'p::len word \<Rightarrow> size_t \<Rightarrow> 'p word \<Rightarrow> 'p word option" where
  "ShiftRight_promoted sg v bits msk = shr sg (v AND msk) bits"

definition ShiftRight ::
  "signedness \<Rightarrow> 'a::len word \<Rightarrow> size_t \<Rightarrow> 'a word \<Rightarrow> 'a word option" where
  "ShiftRight sg v bits msk =
     (if LENGTH('a) < 32
      then map_option ucast (ShiftRight_promoted Signed (promote sg v) bits (promote sg msk))
      else ShiftRight_promoted sg v bits msk)"

definition ShiftLeft_default :: "signedness \<Rightarrow> 'a::len word \<Rightarrow> size_t \<Rightarrow> 'a word option" where
  "ShiftLeft_default sg v bits = ShiftLeft sg v bits (numeric_limits_max sg)"

definition ShiftRight_default :: "signedness \<Rightarrow> 'a::len word \<Rightarrow> size_t \<Rightarrow> 'a word option" where
  "ShiftRight_default sg v bits = ShiftRight sg v bits (numeric_limits_max sg)"

definition ShiftLeft_formula :: "'a::len word \<Rightarrow> nat \<Rightarrow> 'a word \<Rightarrow> 'a word" where
  "ShiftLeft_formula v bits msk = push_bit bits v AND msk"

definition ShiftRight_formula :: "signedness \<Rightarrow> 'a::len word \<Rightarrow> nat \<Rightarrow> 'a word \<Rightarrow> 'a word" where
  "ShiftRight_formula sg v bits msk = shift_right_T sg (v AND msk) bits"


section \<open>Most significant bit (\<^verbatim>\<open>significant_bit.h\<close>)\<close>

text \<open>
  One step of the search, the statement
  \<^verbatim>\<open>if (v >= T(1) << k) p += k, v >>= k;\<close>
  on the pair of the position \<open>p\<close> and the remaining value \<open>v\<close>.  For the 8 and 16 bit
  types both operands of the comparison and the operand of the shift are promoted to
  \<^verbatim>\<open>int\<close>, which keeps their values, so the comparison is the one of the unsigned
  values and the shift is the logical one.  The position is a \<^verbatim>\<open>std::size_t\<close> that
  never exceeds 63 and is modelled as a natural number.
\<close>

definition msb_step :: "nat \<Rightarrow> nat \<times> 'a::len word \<Rightarrow> nat \<times> 'a word" where
  "msb_step k = (\<lambda>(p, v). if push_bit k 1 \<le> v then (p + k, drop_bit k v) else (p, v))"

definition FindMSb_u8 :: "u8 \<Rightarrow> nat" where
  "FindMSb_u8 v0 =
     (let (p, v) = (0, v0);
          (p, v) = (if push_bit 4 1 \<le> v then (p + 4, drop_bit 4 v) else (p, v));
          (p, v) = (if push_bit 2 1 \<le> v then (p + 2, drop_bit 2 v) else (p, v));
          (p, v) = (if push_bit 1 1 \<le> v then (p + 1, drop_bit 1 v) else (p, v))
      in p)"

definition FindMSb_u16 :: "u16 \<Rightarrow> nat" where
  "FindMSb_u16 v0 =
     (let (p, v) = (0, v0);
          (p, v) = (if push_bit 8 1 \<le> v then (p + 8, drop_bit 8 v) else (p, v));
          (p, v) = (if push_bit 4 1 \<le> v then (p + 4, drop_bit 4 v) else (p, v));
          (p, v) = (if push_bit 2 1 \<le> v then (p + 2, drop_bit 2 v) else (p, v));
          (p, v) = (if push_bit 1 1 \<le> v then (p + 1, drop_bit 1 v) else (p, v))
      in p)"

definition FindMSb_u32 :: "u32 \<Rightarrow> nat" where
  "FindMSb_u32 v0 =
     (let (p, v) = (0, v0);
          (p, v) = (if push_bit 16 1 \<le> v then (p + 16, drop_bit 16 v) else (p, v));
          (p, v) = (if push_bit 8 1 \<le> v then (p + 8, drop_bit 8 v) else (p, v));
          (p, v) = (if push_bit 4 1 \<le> v then (p + 4, drop_bit 4 v) else (p, v));
          (p, v) = (if push_bit 2 1 \<le> v then (p + 2, drop_bit 2 v) else (p, v));
          (p, v) = (if push_bit 1 1 \<le> v then (p + 1, drop_bit 1 v) else (p, v))
      in p)"

definition FindMSb_u64 :: "u64 \<Rightarrow> nat" where
  "FindMSb_u64 v0 =
     (let (p, v) = (0, v0);
          (p, v) = (if push_bit 32 1 \<le> v then (p + 32, drop_bit 32 v) else (p, v));
          (p, v) = (if push_bit 16 1 \<le> v then (p + 16, drop_bit 16 v) else (p, v));
          (p, v) = (if push_bit 8 1 \<le> v then (p + 8, drop_bit 8 v) else (p, v));
          (p, v) = (if push_bit 4 1 \<le> v then (p + 4, drop_bit 4 v) else (p, v));
          (p, v) = (if push_bit 2 1 \<le> v then (p + 2, drop_bit 2 v) else (p, v));
          (p, v) = (if push_bit 1 1 \<le> v then (p + 1, drop_bit 1 v) else (p, v))
      in p)"

text \<open>
  The signed overloads.  The argument is the bit pattern of the signed value;
  \<^verbatim>\<open>v >= 0\<close> compares it as a signed number.  For the 8 and 16 bit types \<^verbatim>\<open>~v\<close> is
  computed on the promoted \<^verbatim>\<open>int\<close> and \<^verbatim>\<open>static_cast\<close> keeps its low bits.
\<close>

definition FindMSb_i8 :: "u8 \<Rightarrow> nat" where
  "FindMSb_i8 v =
     (if 0 \<le>s v then FindMSb_u8 v else FindMSb_u8 (ucast (NOT (promote Signed v))))"

definition FindMSb_i16 :: "u16 \<Rightarrow> nat" where
  "FindMSb_i16 v =
     (if 0 \<le>s v then FindMSb_u16 v else FindMSb_u16 (ucast (NOT (promote Signed v))))"

definition FindMSb_i32 :: "u32 \<Rightarrow> nat" where
  "FindMSb_i32 v = (if 0 \<le>s v then FindMSb_u32 v else FindMSb_u32 (NOT v))"

definition FindMSb_i64 :: "u64 \<Rightarrow> nat" where
  "FindMSb_i64 v = (if 0 \<le>s v then FindMSb_u64 v else FindMSb_u64 (NOT v))"

text \<open>
  The index of the highest set bit, as the specification words it: bit \<open>p\<close> of \<open>v\<close> is
  set and no bit above it is.
\<close>

definition highest_set_bit :: "'a::len word \<Rightarrow> nat \<Rightarrow> bool" where
  "highest_set_bit v p \<longleftrightarrow> bit v p \<and> (\<forall>n < LENGTH('a). bit v n \<longrightarrow> n \<le> p)"


section \<open>Byte order (\<^verbatim>\<open>byte_order.h\<close>, \<^verbatim>\<open>byte_order.cpp\<close>)\<close>

text \<open>
  \<^verbatim>\<open>enum class EndianClassification : std::uint32_t\<close>.  A value of the type is any 32 bit
  value (the result of \<^verbatim>\<open>GetMachineEndian\<close> may be none of the enumerators); the four
  enumerators are named constants.
\<close>

type_synonym EndianClassification = u32

definition Big_Endian :: EndianClassification where
  "Big_Endian = 0x00010203"

definition PDP_Endian :: EndianClassification where
  "PDP_Endian = 0x01000302"

definition Honeywell_Endian :: EndianClassification where
  "Honeywell_Endian = 0x02030001"

definition Little_Endian :: EndianClassification where
  "Little_Endian = 0x03020100"

definition EndianClassification_enumerators :: "EndianClassification list" where
  "EndianClassification_enumerators =
     [Big_Endian, PDP_Endian, Honeywell_Endian, Little_Endian]"

text \<open>
  What the code takes from the platform it is compiled for: whether the library has
  \<^verbatim>\<open>std::endian\<close> (\<^verbatim>\<open>__cpp_lib_endian >= 201907L\<close>), the value of
  \<^verbatim>\<open>std::endian::native\<close>, and the byte order of a 32 bit integer in memory, given as the
  significance (0 for the least significant byte) of the byte stored at each of the four
  offsets.
\<close>

datatype std_endian = little | big | neither

record platform =
  cpp_lib_endian :: bool
  native :: std_endian
  significance :: "nat \<Rightarrow> nat"

text \<open>
  The union \<^verbatim>\<open>Observed_Endianness\<close>: the four octets \<^verbatim>\<open>{0, 1, 2, 3}\<close> are stored at
  offsets 0 to 3 and read back as one 32 bit integer.
\<close>

definition Observed_Endianness_octets :: "u8 list" where
  "Observed_Endianness_octets = [0, 1, 2, 3]"

definition read_u32 :: "(nat \<Rightarrow> nat) \<Rightarrow> u8 list \<Rightarrow> u32" where
  "read_u32 sig octets =
     push_bit (8 * sig 0) (ucast (octets ! 0)) OR
     push_bit (8 * sig 1) (ucast (octets ! 1)) OR
     push_bit (8 * sig 2) (ucast (octets ! 2)) OR
     push_bit (8 * sig 3) (ucast (octets ! 3))"

definition Observed_Endianness_endian :: "platform \<Rightarrow> u32" where
  "Observed_Endianness_endian pf = read_u32 (significance pf) Observed_Endianness_octets"

definition DetermineMachineEndian :: "platform \<Rightarrow> EndianClassification" where
  "DetermineMachineEndian pf = Observed_Endianness_endian pf"

definition Machine_Endian :: "platform \<Rightarrow> EndianClassification" where
  "Machine_Endian pf = DetermineMachineEndian pf"

definition GetMachineEndian :: "platform \<Rightarrow> EndianClassification" where
  "GetMachineEndian pf = Machine_Endian pf"

text \<open>
  The four classical byte orders of a 32 bit integer with bytes \<open>A B C D\<close> from the most
  to the least significant: big endian stores \<open>A B C D\<close>, little endian \<open>D C B A\<close>, the
  PDP-11 \<open>B A D C\<close> and the Honeywell 316 \<open>C D A B\<close>.
\<close>

definition big_endian_order :: "nat \<Rightarrow> nat" where
  "big_endian_order i = [3, 2, 1, 0] ! i"

definition little_endian_order :: "nat \<Rightarrow> nat" where
  "little_endian_order i = [0, 1, 2, 3] ! i"

definition pdp_endian_order :: "nat \<Rightarrow> nat" where
  "pdp_endian_order i = [2, 3, 0, 1] ! i"

definition honeywell_endian_order :: "nat \<Rightarrow> nat" where
  "honeywell_endian_order i = [1, 0, 3, 2] ! i"

text \<open>The predicates, in both variants of the conditional compilation.\<close>

definition IsLittleEndian :: "platform \<Rightarrow> bool" where
  "IsLittleEndian pf =
     (if cpp_lib_endian pf then native pf = little
      else GetMachineEndian pf = Little_Endian)"

definition IsBigEndian :: "platform \<Rightarrow> bool" where
  "IsBigEndian pf =
     (if cpp_lib_endian pf then native pf = big
      else GetMachineEndian pf = Big_Endian)"

definition IsLittleOrBigEndian :: "platform \<Rightarrow> bool" where
  "IsLittleOrBigEndian pf =
     (if cpp_lib_endian pf
      then (if native pf = little then True
            else if native pf = big then True
            else False)
      else GetMachineEndian pf = Little_Endian \<or> GetMachineEndian pf = Big_Endian)"

text \<open>
  \<^verbatim>\<open>NetworkByteOrder\<close>.  With \<^verbatim>\<open>std::endian\<close> the function holds
  \<^verbatim>\<open>static_assert(IsLittleOrBigEndian())\<close>: on any other platform the program is
  rejected and the function has no result, the value \<open>None\<close>.  The variant without
  \<^verbatim>\<open>std::endian\<close> has no such check.
\<close>

definition NetworkByteOrder_u64 :: "platform \<Rightarrow> u64 \<Rightarrow> u64 option" where
  "NetworkByteOrder_u64 pf v =
     (if cpp_lib_endian pf \<and> \<not> IsLittleOrBigEndian pf then None
      else if IsBigEndian pf then Some v
      else Some
        ((drop_bit 56 v AND 0x00000000000000ff) OR
         (drop_bit 40 v AND 0x000000000000ff00) OR
         (drop_bit 24 v AND 0x0000000000ff0000) OR
         (drop_bit 8 v AND 0x00000000ff000000) OR
         (push_bit 8 v AND 0x000000ff00000000) OR
         (push_bit 24 v AND 0x0000ff0000000000) OR
         (push_bit 40 v AND 0x00ff000000000000) OR
         (push_bit 56 v AND 0xff00000000000000)))"

definition NetworkByteOrder_u32 :: "platform \<Rightarrow> u32 \<Rightarrow> u32 option" where
  "NetworkByteOrder_u32 pf v =
     (if cpp_lib_endian pf \<and> \<not> IsLittleOrBigEndian pf then None
      else if IsBigEndian pf then Some v
      else Some
        ((drop_bit 24 v AND 0x000000ff) OR (drop_bit 8 v AND 0x0000ff00) OR
         (push_bit 8 v AND 0x00ff0000) OR (push_bit 24 v AND 0xff000000)))"

text \<open>
  The 16 bit overload computes on the promoted \<^verbatim>\<open>int\<close>; the shifts by 8 are defined
  there, and the result is converted back to 16 bits.
\<close>

definition NetworkByteOrder_u16 :: "platform \<Rightarrow> u16 \<Rightarrow> u16 option" where
  "NetworkByteOrder_u16 pf v =
     (if cpp_lib_endian pf \<and> \<not> IsLittleOrBigEndian pf then None
      else if IsBigEndian pf then Some v
      else Some (ucast
        ((signed_drop_bit 8 (promote Unsigned v) AND 0x00ff) OR
         (push_bit 8 (promote Unsigned v) AND 0xff00))))"

text \<open>
  The constituent bytes of a value, byte 0 the least significant, and the properties of
  the byte sequence that the specification of \<^verbatim>\<open>NetworkByteOrder\<close> speaks of.
\<close>

definition byte_at :: "'a::len word \<Rightarrow> nat \<Rightarrow> u8" where
  "byte_at v i = ucast (drop_bit (8 * i) v)"

definition bytes_of :: "'a::len word \<Rightarrow> u8 list" where
  "bytes_of v = map (byte_at v) [0 ..< LENGTH('a) div 8]"

definition differing_bytes :: "'a::len word \<Rightarrow> bool" where
  "differing_bytes v \<longleftrightarrow> (\<exists>b \<in> set (bytes_of v). \<exists>c \<in> set (bytes_of v). b \<noteq> c)"

definition palindromic_bytes :: "'a::len word \<Rightarrow> bool" where
  "palindromic_bytes v \<longleftrightarrow> rev (bytes_of v) = bytes_of v"

text \<open>
  The expressions that \<^verbatim>\<open>NetworkByteOrder\<close> returns on a platform that is not big
  endian, named so that they can be reasoned about on their own.
\<close>

definition swap16 :: "u16 \<Rightarrow> u16" where
  "swap16 v = ucast
        ((signed_drop_bit 8 (promote Unsigned v) AND 0x00ff) OR
         (push_bit 8 (promote Unsigned v) AND 0xff00))"

definition swap32 :: "u32 \<Rightarrow> u32" where
  "swap32 v = ((drop_bit 24 v AND 0x000000ff) OR (drop_bit 8 v AND 0x0000ff00) OR
         (push_bit 8 v AND 0x00ff0000) OR (push_bit 24 v AND 0xff000000))"

definition swap64 :: "u64 \<Rightarrow> u64" where
  "swap64 v = ((drop_bit 56 v AND 0x00000000000000ff) OR
         (drop_bit 40 v AND 0x000000000000ff00) OR
         (drop_bit 24 v AND 0x0000000000ff0000) OR
         (drop_bit 8 v AND 0x00000000ff000000) OR
         (push_bit 8 v AND 0x000000ff00000000) OR
         (push_bit 24 v AND 0x0000ff0000000000) OR
         (push_bit 40 v AND 0x00ff000000000000) OR
         (push_bit 56 v AND 0xff00000000000000))"


section \<open>The invariant of the search for the most significant bit\<close>

text \<open>
  Before the step for \<open>k\<close> the remaining value is the original one shifted right by the
  position found so far, it is below \<open>2 ^ (2 * k)\<close>, and it is zero only if the original
  value is.
\<close>

definition msb_invariant :: "'a::len word \<Rightarrow> nat \<Rightarrow> nat \<times> 'a word \<Rightarrow> bool" where
  "msb_invariant v0 k s \<longleftrightarrow>
     snd s = drop_bit (fst s) v0 \<and> unat (snd s) < 2 ^ k \<and> (v0 \<noteq> 0 \<longrightarrow> snd s \<noteq> 0)"


section \<open>Promotion to \<^verbatim>\<open>int\<close> and back\<close>

lemma promote_and:
  "LENGTH('a) < 32 \<Longrightarrow> promote sg (v::'a::len word) AND promote sg m = promote sg (v AND m)"
  by (cases sg; simp add: promote_def; rule bit_eqI; simp add: bit_simps)

lemma ucast_push_promote:
  "LENGTH('a) < 32 \<Longrightarrow>
   (ucast (push_bit n (promote sg (v::'a::len word))) :: 'a word) = push_bit n v"
  by (cases sg; simp add: promote_def; rule bit_eqI; auto simp add: bit_simps)

lemma ucast_promote:
  "LENGTH('a) < 32 \<Longrightarrow> (ucast (promote sg (v::'a::len word)) :: 'a word) = v"
  by (cases sg; simp add: promote_def; rule bit_eqI; auto simp add: bit_simps)

lemma ucast_shr_promote:
  "LENGTH('a) < 32 \<Longrightarrow> n < 32 \<Longrightarrow>
   (ucast (signed_drop_bit n (promote sg (v::'a::len word))) :: 'a word) = shift_right_T sg v n"
  by (cases sg; simp add: promote_def shift_right_T_def; rule bit_eqI;
      auto simp add: bit_simps dest: bit_imp_le_length)

lemma ucast_cint_or: "(ucast (a OR b :: cint) :: 'a::len word) = ucast a OR ucast b"
  by (rule bit_eqI; auto simp add: bit_simps)

lemma ucast_cint_and: "(ucast (a AND b :: cint) :: 'a::len word) = ucast a AND ucast b"
  by (rule bit_eqI; auto simp add: bit_simps)

lemmas narrow_simps =
  promote_and ucast_push_promote ucast_promote ucast_shr_promote ucast_cint_or ucast_cint_and

text \<open>
  What the templates compute: the formula on the operand type whenever both shift counts
  are below the width of the promoted operand type, and nothing otherwise.
\<close>

lemma RotateLeft_eq:
  fixes v :: "'a::len word"
  shows "RotateLeft sg v bits width msk =
     (if unat bits < max 32 LENGTH('a) \<and> unat (width - bits) < max 32 LENGTH('a)
      then Some (RotateLeft_formula sg v (unat bits) (unat bits + unat (width - bits)) msk)
      else None)"
  by (cases sg; simp add: RotateLeft_def RotateLeft_promoted_def shl_def shr_def
      RotateLeft_formula_def narrow_simps; simp add: shift_right_T_def)

lemma RotateRight_eq:
  fixes v :: "'a::len word"
  shows "RotateRight sg v bits width msk =
     (if unat bits < max 32 LENGTH('a) \<and> unat (width - bits) < max 32 LENGTH('a)
      then Some (RotateRight_formula sg v (unat bits) (unat bits + unat (width - bits)) msk)
      else None)"
  by (cases sg; simp add: RotateRight_def RotateRight_promoted_def shl_def shr_def
      RotateRight_formula_def narrow_simps; simp add: shift_right_T_def)

lemma ShiftLeft_eq:
  fixes v :: "'a::len word"
  shows "ShiftLeft sg v bits msk =
     (if unat bits < max 32 LENGTH('a)
      then Some (ShiftLeft_formula v (unat bits) msk)
      else None)"
  by (cases sg; simp add: ShiftLeft_def ShiftLeft_promoted_def shl_def
      ShiftLeft_formula_def narrow_simps)

lemma ShiftRight_eq:
  fixes v :: "'a::len word"
  shows "ShiftRight sg v bits msk =
     (if unat bits < max 32 LENGTH('a)
      then Some (ShiftRight_formula sg v (unat bits) msk)
      else None)"
  by (cases sg; simp add: ShiftRight_def ShiftRight_promoted_def shr_def
      ShiftRight_formula_def narrow_simps; simp add: shift_right_T_def)

lemma size_t_sub: "unat bits \<le> unat width \<Longrightarrow> unat (width - bits :: size_t) = unat width - unat bits"
  by (simp add: unat_sub word_le_nat_alt)


section \<open>Rotation with the default arguments\<close>

lemma default_width:
  fixes v :: "'a::len word"
  assumes "LENGTH('a) \<in> {8, 16, 32, 64}"
  shows "sizeof v * CHAR_BIT = LENGTH('a)"
  using assms by (auto simp add: sizeof_def CHAR_BIT_def)

lemma unat_size_t_of_nat: "n \<le> 64 \<Longrightarrow> unat (of_nat n :: size_t) = n"
  by (simp add: unat_of_nat)

lemma default_width_diff:
  fixes x :: "'a::len word"
  assumes "LENGTH('a) \<in> {8, 16, 32, 64}" "unat k < LENGTH('a)"
  shows "unat ((of_nat LENGTH('a) :: size_t) - k) = LENGTH('a) - unat k"
proof -
  have "LENGTH('a) \<le> 64" using assms(1) by auto
  then have "unat (of_nat LENGTH('a) :: size_t) = LENGTH('a)"
    by (rule unat_size_t_of_nat)
  then show ?thesis using assms(2) by (simp add: size_t_sub)
qed

lemma rotate_left_unsigned_default:
  fixes x :: "'a::len word"
  assumes "LENGTH('a) \<in> {8, 16, 32, 64}" "0 < unat k" "unat k < LENGTH('a)"
  shows "RotateLeft_default Unsigned x k
         = Some (push_bit (unat k) x OR drop_bit (LENGTH('a) - unat k) x)"
proof -
  have "unat k < max 32 LENGTH('a) \<and> LENGTH('a) - unat k < max 32 LENGTH('a)"
    using assms(2,3) by arith
  then show ?thesis
    using assms(3) 
    by (simp add: RotateLeft_default_def default_width[OF assms(1)] RotateLeft_eq
        default_width_diff[OF assms(1,3)]
        RotateLeft_formula_def numeric_limits_max_def shift_right_T_def)
qed

lemma rotate_right_unsigned_default:
  fixes x :: "'a::len word"
  assumes "LENGTH('a) \<in> {8, 16, 32, 64}" "0 < unat k" "unat k < LENGTH('a)"
  shows "RotateRight_default Unsigned x k
         = Some (drop_bit (unat k) x OR push_bit (LENGTH('a) - unat k) x)"
proof -
  have "unat k < max 32 LENGTH('a) \<and> LENGTH('a) - unat k < max 32 LENGTH('a)"
    using assms(2,3) by arith
  then show ?thesis
    using assms(3) 
    by (simp add: RotateRight_default_def default_width[OF assms(1)] RotateRight_eq
        default_width_diff[OF assms(1,3)]
        RotateRight_formula_def numeric_limits_max_def shift_right_T_def)
qed

lemma rotl_rotr_word:
  fixes x :: "'a::len word"
  assumes "0 < k" "k < LENGTH('a)"
  shows "push_bit k (drop_bit k x OR push_bit (LENGTH('a) - k) x) OR
         drop_bit (LENGTH('a) - k) (drop_bit k x OR push_bit (LENGTH('a) - k) x) = x"
proof -
  have "push_bit k (drop_bit k x) OR drop_bit (LENGTH('a) - k) (push_bit (LENGTH('a) - k) x) = x"
  proof (rule bit_word_eqI)
    fix n
    assume n: "n < LENGTH('a)"
    show "bit (push_bit k (drop_bit k x) OR
               drop_bit (LENGTH('a) - k) (push_bit (LENGTH('a) - k) x)) n = bit x n"
      using assms n by (cases "k \<le> n") (auto simp add: bit_simps)
  qed
  then show ?thesis using assms by simp
qed

lemma rotr_rotl_word:
  fixes x :: "'a::len word"
  assumes "0 < k" "k < LENGTH('a)"
  shows "drop_bit k (push_bit k x OR drop_bit (LENGTH('a) - k) x) OR
         push_bit (LENGTH('a) - k) (push_bit k x OR drop_bit (LENGTH('a) - k) x) = x"
proof -
  have "drop_bit k (push_bit k x) OR push_bit (LENGTH('a) - k) (drop_bit (LENGTH('a) - k) x) = x"
  proof (rule bit_word_eqI)
    fix n
    assume n: "n < LENGTH('a)"
    show "bit (drop_bit k (push_bit k x) OR
               push_bit (LENGTH('a) - k) (drop_bit (LENGTH('a) - k) x)) n = bit x n"
      using assms n by (cases "n + k < LENGTH('a)") (auto simp add: bit_simps)
  qed
  then show ?thesis using assms by simp
qed


section \<open>Rotation and shifting: the formulas and the algebraic laws\<close>

lemma numeric_limits_max_unsigned: "(numeric_limits_max Unsigned :: 'a::len word) = - 1"
  by (simp add: numeric_limits_max_def)

lemma numeric_limits_max_signed:
  "(numeric_limits_max Signed :: 'a::len word) = mask (LENGTH('a) - 1)"
  by (simp add: numeric_limits_max_def)

text \<open>
  With the width and the mask passed by the caller, the templates return the two formulas
  of the specification wherever both shifts are defined, that is, wherever both counts
  are below the width of the promoted operand type.
\<close>

lemma rotate_formula_where_defined:
  fixes v msk :: "'a::len word"
  assumes "unat bits \<le> unat width" "unat bits < max 32 LENGTH('a)"
    "unat width - unat bits < max 32 LENGTH('a)"
  shows "RotateLeft sg v bits width msk
           = Some (RotateLeft_formula sg v (unat bits) (unat width) msk) \<and>
         RotateRight sg v bits width msk
           = Some (RotateRight_formula sg v (unat bits) (unat width) msk)"
proof -
  have "unat (width - bits) = unat width - unat bits"
    using assms(1) by (rule size_t_sub)
  then show ?thesis
    using assms by (simp add: RotateLeft_eq RotateRight_eq)
qed

text \<open>
  Claim C1.  \<^verbatim>\<open>RotateLeft\<close> and \<^verbatim>\<open>RotateRight\<close> return
  \<^verbatim>\<open>((value << bits) | ((value & mask) >> (width - bits))) & mask\<close> and
  \<^verbatim>\<open>(((value & mask) >> bits) | (value << (width - bits))) & mask\<close>, with the width
  defaulting to the full bit width of the operand type and the mask to all ones.  The
  code departs from this on a signed operand type, where the default mask
  \<^verbatim>\<open>std::numeric_limits<T>::max()\<close> has the sign bit clear: \<^verbatim>\<open>RotateLeft(std::int8_t(0x40), 1)\<close>
  returns 0, where the formula with a mask of all ones gives \<^verbatim>\<open>0x80\<close>, which is also what
  the same call on \<^verbatim>\<open>std::uint8_t\<close> returns.  The 32 bit calls
  \<^verbatim>\<open>RotateLeft(std::int32_t(0x40000000), 1)\<close> and \<^verbatim>\<open>RotateRight(std::int32_t(1), 1)\<close> lose
  the bit in the same way.
\<close>

theorem RotateLeft_signed_default_mask:
  "(numeric_limits_max Signed :: u8) = 0x7F \<and>
   RotateLeft_default Signed (0x40 :: u8) 1 = Some 0 \<and>
   RotateLeft Signed (0x40 :: u8) 1 8 (- 1) = Some 0x80 \<and>
   RotateLeft_formula Signed (0x40 :: u8) 1 8 (- 1) = 0x80 \<and>
   RotateLeft_default Unsigned (0x40 :: u8) 1 = Some 0x80 \<and>
   RotateLeft_default Signed (0x40000000 :: u32) 1 = Some 0 \<and>
   RotateLeft_default Unsigned (0x40000000 :: u32) 1 = Some 0x80000000 \<and>
   RotateRight_default Signed (1 :: u32) 1 = Some 0 \<and>
   RotateRight_default Unsigned (1 :: u32) 1 = Some 0x80000000"
  by (simp add: RotateLeft_default_def RotateRight_default_def RotateLeft_eq RotateRight_eq
      sizeof_def CHAR_BIT_def numeric_limits_max_def RotateLeft_formula_def
      RotateRight_formula_def shift_right_T_def mask_eq_exp_minus_1)

text \<open>
  Claim C2.  For an unsigned value \<open>x\<close> of width 8, 16, 32 or 64 and a count \<open>k\<close> with
  \<open>0 < k < W\<close>, with the default width and mask, rotating right by \<open>k\<close> and then left by
  \<open>k\<close> gives \<open>x\<close> back, and so does rotating left and then right.
\<close>

theorem rotate_inverse:
  fixes x :: "'a::len word"
  assumes "LENGTH('a) \<in> {8, 16, 32, 64}" "0 < unat k" "unat k < LENGTH('a)"
  shows "Option.bind (RotateRight_default Unsigned x k) (\<lambda>y. RotateLeft_default Unsigned y k)
           = Some x \<and>
         Option.bind (RotateLeft_default Unsigned x k) (\<lambda>y. RotateRight_default Unsigned y k)
           = Some x"
  using assms(2,3)
  by (simp add: rotate_left_unsigned_default[OF assms] rotate_right_unsigned_default[OF assms]
      rotl_rotr_word rotr_rotl_word del: push_bit_or drop_bit_or)

theorem rotate_inverse_witness:
  "Option.bind (RotateRight_default Unsigned (0x83 :: u8) 2)
     (\<lambda>y. RotateLeft_default Unsigned y 2) = Some 0x83 \<and>
   Option.bind (RotateLeft_default Unsigned (0x83 :: u8) 2)
     (\<lambda>y. RotateRight_default Unsigned y 2) = Some 0x83"
  using rotate_inverse [where 'a = 8, of 2 "0x83"] by simp

text \<open>
  Claim C3.  For an unsigned value \<open>x\<close> of width \<open>W\<close> in 8, 16, 32, 64 and a count \<open>k\<close>
  with \<open>0 < k < W\<close>, with the default width and mask, \<^verbatim>\<open>RotateLeft(x, k)\<close> equals
  \<^verbatim>\<open>RotateRight(x, W - k)\<close>, and both are defined.
\<close>

theorem rotate_left_right_complement:
  fixes x :: "'a::len word"
  assumes "LENGTH('a) \<in> {8, 16, 32, 64}" "0 < unat k" "unat k < LENGTH('a)"
  shows "RotateLeft_default Unsigned x k = RotateRight_default Unsigned x (of_nat LENGTH('a) - k)
         \<and> RotateLeft_default Unsigned x k \<noteq> None"
proof -
  have d: "unat ((of_nat LENGTH('a) :: size_t) - k) = LENGTH('a) - unat k"
    using assms(1,3) by (rule default_width_diff)
  have "0 < unat ((of_nat LENGTH('a) :: size_t) - k)" "unat ((of_nat LENGTH('a) :: size_t) - k) < LENGTH('a)"
    using assms(2,3) d by simp_all
  then have "RotateRight_default Unsigned x (of_nat LENGTH('a) - k)
     = Some (drop_bit (LENGTH('a) - unat k) x OR push_bit (LENGTH('a) - (LENGTH('a) - unat k)) x)"
    using rotate_right_unsigned_default[OF assms(1), of "of_nat LENGTH('a) - k" x] d by simp
  then show ?thesis
    using assms(3) by (simp add: rotate_left_unsigned_default[OF assms] or.commute)
qed

theorem rotate_left_right_complement_witness:
  "RotateLeft_default Unsigned (0x0000FFFF :: u32) 4
     = RotateRight_default Unsigned (0x0000FFFF :: u32) 28 \<and>
   RotateLeft_default Unsigned (0x0000FFFF :: u32) 4 \<noteq> None"
proof -
  have inst: "RotateLeft_default Unsigned (0x0000FFFF :: u32) 4
          = RotateRight_default Unsigned (0x0000FFFF :: u32) (of_nat LENGTH(32) - 4) \<and>
        RotateLeft_default Unsigned (0x0000FFFF :: u32) 4 \<noteq> None"
    by (rule rotate_left_right_complement) simp_all
  have count: "(of_nat LENGTH(32) - 4 :: size_t) = 28"
    by simp
  show ?thesis
    using inst unfolding count .
qed

text \<open>
  With the mask passed by the caller, the templates return the two formulas of the
  specification wherever the shift is defined.
\<close>

lemma shift_formula_where_defined:
  fixes v msk :: "'a::len word"
  assumes "unat bits < max 32 LENGTH('a)"
  shows "ShiftLeft sg v bits msk = Some (ShiftLeft_formula v (unat bits) msk) \<and>
         ShiftRight sg v bits msk = Some (ShiftRight_formula sg v (unat bits) msk)"
  using assms by (simp add: ShiftLeft_eq ShiftRight_eq)

text \<open>
  Claim C9.  \<^verbatim>\<open>ShiftLeft\<close> returns \<^verbatim>\<open>(value << bits) & mask\<close> and \<^verbatim>\<open>ShiftRight\<close> returns
  \<^verbatim>\<open>(value & mask) >> bits\<close>, with the mask defaulting to all ones; in particular
  \<^verbatim>\<open>ShiftLeft(std::uint8_t(0b00000011), 2)\<close> is \<^verbatim>\<open>0b00001100\<close>.  The code departs from
  this on a signed operand type, where the default mask
  \<^verbatim>\<open>std::numeric_limits<T>::max()\<close> has the sign bit clear: \<^verbatim>\<open>ShiftLeft(std::int8_t(0x40), 1)\<close>
  returns 0, where \<^verbatim>\<open>(value << bits) & mask\<close> with a mask of all ones gives \<^verbatim>\<open>0x80\<close>,
  which is also what the same call on \<^verbatim>\<open>std::uint8_t\<close> returns; and
  \<^verbatim>\<open>ShiftRight(std::int64_t(-1), 63)\<close> returns 0, which is neither the logical nor the
  arithmetic shift of the value.
\<close>

theorem ShiftLeft_signed_default_mask:
  "(numeric_limits_max Signed :: u8) = 0x7F \<and>
   ShiftLeft_default Signed (0x40 :: u8) 1 = Some 0 \<and>
   ShiftLeft Signed (0x40 :: u8) 1 (- 1) = Some 0x80 \<and>
   ShiftLeft_formula (0x40 :: u8) 1 (- 1) = 0x80 \<and>
   ShiftLeft_default Unsigned (0x40 :: u8) 1 = Some 0x80 \<and>
   ShiftRight_default Signed (- 1 :: u64) 63 = Some 0 \<and>
   ShiftRight Signed (- 1 :: u64) 63 (- 1) = Some (- 1) \<and>
   ShiftRight_default Unsigned (- 1 :: u64) 63 = Some 1 \<and>
   ShiftLeft_default Unsigned (0b00000011 :: u8) 2 = Some 0b00001100"
  by (simp add: ShiftLeft_default_def ShiftRight_default_def ShiftLeft_eq ShiftRight_eq
      numeric_limits_max_def ShiftLeft_formula_def ShiftRight_formula_def shift_right_T_def
      mask_eq_exp_minus_1)


section \<open>The search for the most significant bit\<close>

text \<open>
  The step on the 8 and 16 bit types, written with the promotion of both operands to
  \<^verbatim>\<open>int\<close>, the signed comparison and the arithmetic shift that the compiler applies, is
  the step on the words themselves.
\<close>

lemma sint_promote_unsigned:
  fixes v :: "'a::len word"
  assumes len: "LENGTH('a) < 32"
  shows "sint (promote Unsigned v) = uint v"
proof -
  have upper: "uint v < 2 ^ LENGTH('a)"
    by (rule uint_lt2p)
  have lower: "0 \<le> uint v"
    by simp
  have "(2 :: int) ^ LENGTH('a) \<le> 2 ^ 31"
    using len by (intro power_increasing) simp_all
  then have "uint v < 2 ^ 31" "- (2 ^ 31) \<le> uint v"
    using upper lower by linarith+
  then show ?thesis
    by (simp add: promote_def signed_ucast_eq signed_take_bit_int_eq_self)
qed

lemma promoted_le:
  fixes a b :: "'a::len word"
  shows "LENGTH('a) < 32 \<Longrightarrow> promote Unsigned a \<le>s promote Unsigned b \<longleftrightarrow> a \<le> b"
  by (simp add: word_sle_eq sint_promote_unsigned word_le_def)

lemma promote_push_bit_one:
  "k < LENGTH('a) \<Longrightarrow>
   push_bit k (promote Unsigned (1 :: 'a::len word)) = promote Unsigned (push_bit k 1 :: 'a word)"
  by (rule bit_word_eqI) (auto simp add: promote_def bit_simps)

lemma msb_step_promoted:
  fixes v :: "'a::len word"
  assumes "LENGTH('a) < 32" "k < LENGTH('a)"
  shows "(if push_bit k (promote Unsigned (1 :: 'a word)) \<le>s promote Unsigned v
          then (p + k, ucast (signed_drop_bit k (promote Unsigned v)))
          else (p, v))
         = msb_step k (p, v)"
proof -
  have "k < 32"
    using assms by simp
  then show ?thesis
    using assms
    by (simp add: promote_push_bit_one promoted_le ucast_shr_promote shift_right_T_def
        msb_step_def del: push_bit_of_1)
qed

lemma msb_invariant_init: "msb_invariant (v0 :: 'a::len word) LENGTH('a) (0, v0)"
  by (simp add: msb_invariant_def)

lemma div_pow_bound: "(n::nat) < 2 ^ (2 * k) \<Longrightarrow> n div 2 ^ k < 2 ^ k"
  by (simp add: less_mult_imp_div_less mult_2 power_add)

lemma unat_pow: "k < LENGTH('a) \<Longrightarrow> unat (push_bit k 1 :: 'a::len word) = 2 ^ k"
proof -
  assume k: "k < LENGTH('a)"
  have "unat (of_nat (2 ^ k) :: 'a word) = 2 ^ k mod 2 ^ LENGTH('a)"
    by (rule unat_of_nat)
  then show ?thesis using k by simp
qed

lemma msb_invariant_step:
  fixes v0 :: "'a::len word"
  assumes inv: "msb_invariant v0 (2 * k) s" and k: "k < LENGTH('a)"
  shows "msb_invariant v0 k (msb_step k s)"
proof -
  obtain p v where s: "s = (p, v)" by (cases s)
  have v: "v = drop_bit p v0" and bound: "unat v < 2 ^ (2 * k)" and nz: "v0 \<noteq> 0 \<longrightarrow> v \<noteq> 0"
    using inv by (auto simp add: msb_invariant_def s)
  have pow: "unat (push_bit k 1 :: 'a word) = 2 ^ k"
    using k by (rule unat_pow)
  show ?thesis
  proof (cases "push_bit k 1 \<le> v")
    case True
    then have ge: "2 ^ k \<le> unat v"
      using pow by (simp add: word_le_nat_alt)
    have "unat (drop_bit k v) = unat v div 2 ^ k"
      by (subst unat_drop_bit_eq) (simp add: drop_bit_eq_div)
    moreover have "unat v div 2 ^ k < 2 ^ k"
      using bound by (rule div_pow_bound)
    moreover have "0 < unat v div 2 ^ k"
      using ge by (simp add: div_greater_zero_iff)
    ultimately have "unat (drop_bit k v) < 2 ^ k" "drop_bit k v \<noteq> 0"
      using unat_gt_0 [of "drop_bit k v"] by simp_all
    then show ?thesis
      using True v by (simp add: msb_invariant_def msb_step_def s add.commute)
  next
    case False
    then have "unat v < 2 ^ k"
      using pow by (simp add: word_le_nat_alt)
    then show ?thesis
      using False v nz by (simp add: msb_invariant_def msb_step_def s)
  qed
qed


lemma msb_invariant_final:
  assumes "msb_invariant v0 1 s" "v0 \<noteq> 0"
  shows "highest_set_bit v0 (fst s)"
proof -
  have "unat (snd s) < 2" "snd s \<noteq> 0" and d: "snd s = drop_bit (fst s) v0"
    using assms by (auto simp add: msb_invariant_def)
  then have "unat (snd s) = 1"
    using unat_gt_0 [of "snd s"] by simp
  then have "snd s = 1"
    by (simp add: word_unat_eq_iff)
  then have one: "drop_bit (fst s) v0 = 1"
    using d by simp
  have b: "bit v0 (fst s + m) \<longleftrightarrow> m = 0" for m
    using arg_cong [OF one, of "\<lambda>w. bit w m"] by (simp add: bit_drop_bit_eq bit_1_iff add.commute)
  have "bit v0 (fst s)"
    using b [of 0] by simp
  moreover have "n \<le> fst s" if "bit v0 n" for n
  proof (rule ccontr)
    assume "\<not> n \<le> fst s"
    then have "n = fst s + (n - fst s)" "n - fst s \<noteq> 0"
      by simp_all
    then show False
      using b [of "n - fst s"] that by simp
  qed
  ultimately show ?thesis
    by (simp add: highest_set_bit_def)
qed

lemma msb_step_fold:
  "(if push_bit k 1 \<le> v then (p + k, drop_bit k v) else (p, v)) = msb_step k (p, v)"
  by (simp add: msb_step_def)

lemma FindMSb_u8_steps:
  "FindMSb_u8 v = fst (msb_step 1 (msb_step 2 (msb_step 4 (0, v))))"
  by (simp only: FindMSb_u8_def Let_def msb_step_fold case_prod_beta prod.collapse prod.case)

lemma FindMSb_u16_steps:
  "FindMSb_u16 v = fst (msb_step 1 (msb_step 2 (msb_step 4 (msb_step 8 (0, v)))))"
  by (simp only: FindMSb_u16_def Let_def msb_step_fold case_prod_beta prod.collapse prod.case)

lemma FindMSb_u32_steps:
  "FindMSb_u32 v =
     fst (msb_step 1 (msb_step 2 (msb_step 4 (msb_step 8 (msb_step 16 (0, v))))))"
  by (simp only: FindMSb_u32_def Let_def msb_step_fold case_prod_beta prod.collapse prod.case)

lemma FindMSb_u64_steps:
  "FindMSb_u64 v =
     fst (msb_step 1 (msb_step 2 (msb_step 4 (msb_step 8 (msb_step 16 (msb_step 32 (0, v)))))))"
  by (simp only: FindMSb_u64_def Let_def msb_step_fold case_prod_beta prod.collapse prod.case)

lemma FindMSb_u8_highest: "v \<noteq> 0 \<Longrightarrow> highest_set_bit v (FindMSb_u8 v)"
proof -
  assume nz: "v \<noteq> 0"
  have "msb_invariant v 8 (0, v)"
    using msb_invariant_init [of v] by simp
  then have "msb_invariant v 4 (msb_step 4 (0, v))"
    by (intro msb_invariant_step) simp_all
  then have "msb_invariant v 2 (msb_step 2 (msb_step 4 (0, v)))"
    by (intro msb_invariant_step) simp_all
  then have "msb_invariant v 1 (msb_step 1 (msb_step 2 (msb_step 4 (0, v))))"
    by (intro msb_invariant_step) simp_all
  from msb_invariant_final [OF this nz] show ?thesis
    by (simp only: FindMSb_u8_steps)
qed

lemma FindMSb_u16_highest: "v \<noteq> 0 \<Longrightarrow> highest_set_bit v (FindMSb_u16 v)"
proof -
  assume nz: "v \<noteq> 0"
  have "msb_invariant v 16 (0, v)"
    using msb_invariant_init [of v] by simp
  then have "msb_invariant v 8 (msb_step 8 (0, v))"
    by (intro msb_invariant_step) simp_all
  then have "msb_invariant v 4 (msb_step 4 (msb_step 8 (0, v)))"
    by (intro msb_invariant_step) simp_all
  then have "msb_invariant v 2 (msb_step 2 (msb_step 4 (msb_step 8 (0, v))))"
    by (intro msb_invariant_step) simp_all
  then have "msb_invariant v 1 (msb_step 1 (msb_step 2 (msb_step 4 (msb_step 8 (0, v)))))"
    by (intro msb_invariant_step) simp_all
  from msb_invariant_final [OF this nz] show ?thesis
    by (simp only: FindMSb_u16_steps)
qed

lemma FindMSb_u32_highest: "v \<noteq> 0 \<Longrightarrow> highest_set_bit v (FindMSb_u32 v)"
proof -
  assume nz: "v \<noteq> 0"
  have "msb_invariant v 32 (0, v)"
    using msb_invariant_init [of v] by simp
  then have "msb_invariant v 16 (msb_step 16 (0, v))"
    by (intro msb_invariant_step) simp_all
  then have "msb_invariant v 8 (msb_step 8 (msb_step 16 (0, v)))"
    by (intro msb_invariant_step) simp_all
  then have "msb_invariant v 4 (msb_step 4 (msb_step 8 (msb_step 16 (0, v))))"
    by (intro msb_invariant_step) simp_all
  then have "msb_invariant v 2 (msb_step 2 (msb_step 4 (msb_step 8 (msb_step 16 (0, v)))))"
    by (intro msb_invariant_step) simp_all
  then have "msb_invariant v 1
      (msb_step 1 (msb_step 2 (msb_step 4 (msb_step 8 (msb_step 16 (0, v))))))"
    by (intro msb_invariant_step) simp_all
  from msb_invariant_final [OF this nz] show ?thesis
    by (simp only: FindMSb_u32_steps)
qed

lemma FindMSb_u64_highest: "v \<noteq> 0 \<Longrightarrow> highest_set_bit v (FindMSb_u64 v)"
proof -
  assume nz: "v \<noteq> 0"
  have "msb_invariant v 64 (0, v)"
    using msb_invariant_init [of v] by simp
  then have "msb_invariant v 32 (msb_step 32 (0, v))"
    by (intro msb_invariant_step) simp_all
  then have "msb_invariant v 16 (msb_step 16 (msb_step 32 (0, v)))"
    by (intro msb_invariant_step) simp_all
  then have "msb_invariant v 8 (msb_step 8 (msb_step 16 (msb_step 32 (0, v))))"
    by (intro msb_invariant_step) simp_all
  then have "msb_invariant v 4 (msb_step 4 (msb_step 8 (msb_step 16 (msb_step 32 (0, v)))))"
    by (intro msb_invariant_step) simp_all
  then have "msb_invariant v 2
      (msb_step 2 (msb_step 4 (msb_step 8 (msb_step 16 (msb_step 32 (0, v))))))"
    by (intro msb_invariant_step) simp_all
  then have "msb_invariant v 1
      (msb_step 1 (msb_step 2 (msb_step 4 (msb_step 8 (msb_step 16 (msb_step 32 (0, v)))))))"
    by (intro msb_invariant_step) simp_all
  from msb_invariant_final [OF this nz] show ?thesis
    by (simp only: FindMSb_u64_steps)
qed

lemma FindMSb_zero:
  "FindMSb_u8 0 = 0" "FindMSb_u16 0 = 0" "FindMSb_u32 0 = 0" "FindMSb_u64 0 = 0"
  by (simp_all add: FindMSb_u8_def FindMSb_u16_def FindMSb_u32_def FindMSb_u64_def)

lemma highest_set_bit_unique:
  "highest_set_bit v p \<Longrightarrow> highest_set_bit v q \<Longrightarrow> p = q"
  by (meson bit_imp_le_length highest_set_bit_def le_antisym)

lemma highest_set_bit_less:
  "highest_set_bit (v :: 'a::len word) p \<Longrightarrow> p < LENGTH('a)"
  by (auto simp add: highest_set_bit_def dest: bit_imp_le_length)

lemma highest_set_bit_power:
  "n < LENGTH('a) \<Longrightarrow> highest_set_bit (2 ^ n :: 'a::len word) n"
  by (simp add: highest_set_bit_def bit_simps)

lemma FindMSb_power:
  "n < 8 \<Longrightarrow> FindMSb_u8 (2 ^ n) = n"
  "n < 16 \<Longrightarrow> FindMSb_u16 (2 ^ n) = n"
  "n < 32 \<Longrightarrow> FindMSb_u32 (2 ^ n) = n"
  "n < 64 \<Longrightarrow> FindMSb_u64 (2 ^ n) = n"
  using highest_set_bit_unique [OF FindMSb_u8_highest [of "2 ^ n"] highest_set_bit_power [of n]]
    highest_set_bit_unique [OF FindMSb_u16_highest [of "2 ^ n"] highest_set_bit_power [of n]]
    highest_set_bit_unique [OF FindMSb_u32_highest [of "2 ^ n"] highest_set_bit_power [of n]]
    highest_set_bit_unique [OF FindMSb_u64_highest [of "2 ^ n"] highest_set_bit_power [of n]]
  by simp_all

lemma FindMSb_one_two:
  "FindMSb_u8 1 = 0" "FindMSb_u16 1 = 0" "FindMSb_u32 1 = 0" "FindMSb_u64 1 = 0"
  "FindMSb_u8 2 = 1" "FindMSb_u16 2 = 1" "FindMSb_u32 2 = 1" "FindMSb_u64 2 = 1"
  using FindMSb_power [of 0] FindMSb_power [of 1] by simp_all

text \<open>
  Claim C4.  For an unsigned \<open>v\<close> of width 8, 16, 32 or 64, \<^verbatim>\<open>FindMSb(v)\<close> is the index,
  counted from 0, of the highest set bit of \<open>v\<close> when \<open>v\<close> is not 0, and \<^verbatim>\<open>FindMSb(0)\<close> is
  0; in particular \<^verbatim>\<open>FindMSb(1)\<close> is 0, \<^verbatim>\<open>FindMSb(2)\<close> is 1 and \<^verbatim>\<open>FindMSb(2^n)\<close> is \<open>n\<close>
  for every \<open>n\<close> below the width.
\<close>

theorem FindMSb_unsigned_highest_set_bit:
  "((v8 \<noteq> 0 \<longrightarrow> highest_set_bit v8 (FindMSb_u8 v8)) \<and>
    (v16 \<noteq> 0 \<longrightarrow> highest_set_bit v16 (FindMSb_u16 v16)) \<and>
    (v32 \<noteq> 0 \<longrightarrow> highest_set_bit v32 (FindMSb_u32 v32)) \<and>
    (v64 \<noteq> 0 \<longrightarrow> highest_set_bit v64 (FindMSb_u64 v64))) \<and>
   (FindMSb_u8 0 = 0 \<and> FindMSb_u16 0 = 0 \<and> FindMSb_u32 0 = 0 \<and> FindMSb_u64 0 = 0) \<and>
   (FindMSb_u8 1 = 0 \<and> FindMSb_u16 1 = 0 \<and> FindMSb_u32 1 = 0 \<and> FindMSb_u64 1 = 0) \<and>
   (FindMSb_u8 2 = 1 \<and> FindMSb_u16 2 = 1 \<and> FindMSb_u32 2 = 1 \<and> FindMSb_u64 2 = 1) \<and>
   ((n < 8 \<longrightarrow> FindMSb_u8 (2 ^ n) = n) \<and>
    (n < 16 \<longrightarrow> FindMSb_u16 (2 ^ n) = n) \<and>
    (n < 32 \<longrightarrow> FindMSb_u32 (2 ^ n) = n) \<and>
    (n < 64 \<longrightarrow> FindMSb_u64 (2 ^ n) = n))"
  by (intro conjI impI FindMSb_u8_highest FindMSb_u16_highest FindMSb_u32_highest
      FindMSb_u64_highest FindMSb_zero FindMSb_one_two FindMSb_power)

theorem FindMSb_unsigned_highest_set_bit_witness:
  "highest_set_bit (0x50 :: u8) (FindMSb_u8 0x50) \<and>
   highest_set_bit (0x2000 :: u16) (FindMSb_u16 0x2000) \<and>
   highest_set_bit (0x80000000 :: u32) (FindMSb_u32 0x80000000) \<and>
   highest_set_bit (0x40000000000 :: u64) (FindMSb_u64 0x40000000000) \<and>
   FindMSb_u8 (2 ^ 6) = 6 \<and> FindMSb_u16 (2 ^ 6) = 6 \<and>
   FindMSb_u32 (2 ^ 6) = 6 \<and> FindMSb_u64 (2 ^ 6) = 6"
  using FindMSb_unsigned_highest_set_bit
    [of "0x50" "0x2000" "0x80000000" "0x40000000000" 6]
  by simp

text \<open>
  Claim C10.  For an unsigned \<open>v\<close> of width \<open>W\<close> in 8, 16, 32, 64 the result of
  \<^verbatim>\<open>FindMSb(v)\<close> is at most \<open>W - 1\<close>, below the number of bits of the type that the
  documentation gives as the upper end of the range; the bound \<open>W - 1\<close> is reached.
\<close>

theorem FindMSb_unsigned_bound:
  "FindMSb_u8 v8 \<le> 7 \<and> FindMSb_u16 v16 \<le> 15 \<and>
   FindMSb_u32 v32 \<le> 31 \<and> FindMSb_u64 v64 \<le> 63 \<and>
   FindMSb_u8 0x80 = 7 \<and> FindMSb_u16 0x8000 = 15 \<and>
   FindMSb_u32 0x80000000 = 31 \<and> FindMSb_u64 0x8000000000000000 = 63"
proof -
  have "FindMSb_u8 v8 \<le> 7"
    using highest_set_bit_less [OF FindMSb_u8_highest [of v8]]
    by (cases "v8 = 0") (simp_all add: FindMSb_zero)
  moreover have "FindMSb_u16 v16 \<le> 15"
    using highest_set_bit_less [OF FindMSb_u16_highest [of v16]]
    by (cases "v16 = 0") (simp_all add: FindMSb_zero)
  moreover have "FindMSb_u32 v32 \<le> 31"
    using highest_set_bit_less [OF FindMSb_u32_highest [of v32]]
    by (cases "v32 = 0") (simp_all add: FindMSb_zero)
  moreover have "FindMSb_u64 v64 \<le> 63"
    using highest_set_bit_less [OF FindMSb_u64_highest [of v64]]
    by (cases "v64 = 0") (simp_all add: FindMSb_zero)
  moreover have "FindMSb_u8 0x80 = 7" "FindMSb_u16 0x8000 = 15"
    "FindMSb_u32 0x80000000 = 31" "FindMSb_u64 0x8000000000000000 = 63"
    using FindMSb_power(1) [of 7] FindMSb_power(2) [of 15]
      FindMSb_power(3) [of 31] FindMSb_power(4) [of 63]
    by simp_all
  ultimately show ?thesis
    by simp
qed


section \<open>The signed overloads\<close>

lemma sle_zero_iff: "0 \<le>s (v :: 'a::len word) \<longleftrightarrow> \<not> bit v (LENGTH('a) - Suc 0)"
  by (simp add: word_sle_eq bit_last_iff not_less)

lemma sless_zero_iff: "(v :: 'a::len word) <s 0 \<longleftrightarrow> bit v (LENGTH('a) - Suc 0)"
  by (simp add: word_sless_alt bit_last_iff)

lemma not_sless_zero: "(v :: 'a::len word) <s 0 \<Longrightarrow> 0 \<le>s NOT v"
  by (simp add: sle_zero_iff sless_zero_iff bit_simps)

lemma ucast_not_promote:
  "LENGTH('a) < 32 \<Longrightarrow> (ucast (NOT (promote Signed (v::'a::len word))) :: 'a word) = NOT v"
  by (rule bit_word_eqI) (auto simp add: promote_def bit_simps)

lemma top_index: "L - Suc 0 \<le> n \<Longrightarrow> n < L \<Longrightarrow> n = L - Suc 0"
  by arith

lemma not_promote_negative:
  "LENGTH('a) < 32 \<Longrightarrow> (v::'a::len word) <s 0 \<Longrightarrow> NOT (promote Signed v) = ucast (NOT v)"
  by (rule bit_word_eqI) (auto simp add: promote_def bit_simps sless_zero_iff min_def dest: top_index)

lemma highest_set_bit_ucast:
  fixes y :: "'a::len word"
  assumes "LENGTH('a) \<le> LENGTH('b)" "highest_set_bit y p"
  shows "highest_set_bit (ucast y :: 'b::len word) p"
  using assms
  by (auto simp add: highest_set_bit_def bit_simps dest: bit_imp_le_length)

lemma ucast_zero_imp:
  fixes y :: "'a::len word"
  assumes "LENGTH('a) \<le> LENGTH('b)" "(ucast y :: 'b::len word) = 0"
  shows "y = 0"
proof (rule bit_word_eqI)
  fix n
  assume "n < LENGTH('a)"
  then have "bit (ucast y :: 'b word) n = bit y n"
    using assms(1) by (simp add: bit_simps)
  then show "bit y n = bit (0 :: 'a word) n"
    using assms(2) by simp
qed

lemma FindMSb_signed_nonneg:
  "0 \<le>s x8 \<Longrightarrow> FindMSb_i8 x8 = FindMSb_u8 x8"
  "0 \<le>s x16 \<Longrightarrow> FindMSb_i16 x16 = FindMSb_u16 x16"
  "0 \<le>s x32 \<Longrightarrow> FindMSb_i32 x32 = FindMSb_u32 x32"
  "0 \<le>s x64 \<Longrightarrow> FindMSb_i64 x64 = FindMSb_u64 x64"
  by (simp_all add: FindMSb_i8_def FindMSb_i16_def FindMSb_i32_def FindMSb_i64_def)

lemma FindMSb_signed_negative:
  "x8 <s 0 \<Longrightarrow> FindMSb_i8 x8 = FindMSb_u8 (NOT x8)"
  "x16 <s 0 \<Longrightarrow> FindMSb_i16 x16 = FindMSb_u16 (NOT x16)"
  "x32 <s 0 \<Longrightarrow> FindMSb_i32 x32 = FindMSb_u32 (NOT x32)"
  "x64 <s 0 \<Longrightarrow> FindMSb_i64 x64 = FindMSb_u64 (NOT x64)"
  by (simp_all add: FindMSb_i8_def FindMSb_i16_def FindMSb_i32_def FindMSb_i64_def
      ucast_not_promote signed.not_le [symmetric])

lemma FindMSb_signed_minus_one:
  "FindMSb_i8 (- 1) = 0" "FindMSb_i16 (- 1) = 0" "FindMSb_i32 (- 1) = 0" "FindMSb_i64 (- 1) = 0"
  using FindMSb_signed_negative(1) [of "- 1"] FindMSb_signed_negative(2) [of "- 1"]
    FindMSb_signed_negative(3) [of "- 1"] FindMSb_signed_negative(4) [of "- 1"]
  by (simp_all add: FindMSb_zero)

lemma FindMSb_signed_complement:
  "x8 <s 0 \<Longrightarrow> FindMSb_i8 x8 = FindMSb_i8 (NOT x8)"
  "x16 <s 0 \<Longrightarrow> FindMSb_i16 x16 = FindMSb_i16 (NOT x16)"
  "x32 <s 0 \<Longrightarrow> FindMSb_i32 x32 = FindMSb_i32 (NOT x32)"
  "x64 <s 0 \<Longrightarrow> FindMSb_i64 x64 = FindMSb_i64 (NOT x64)"
  by (simp_all add: FindMSb_signed_negative FindMSb_signed_nonneg not_sless_zero)

lemma FindMSb_u32_ucast:
  fixes y :: "'a::len word"
  assumes len: "LENGTH('a) \<le> 32" and same: "\<And>p. y \<noteq> 0 \<Longrightarrow> highest_set_bit y p \<Longrightarrow> p = q"
    and zero: "y = 0 \<Longrightarrow> q = 0" and hi: "y \<noteq> 0 \<Longrightarrow> highest_set_bit y q"
  shows "FindMSb_u32 (ucast y) = q"
proof (cases "y = 0")
  case True
  then show ?thesis by (simp add: FindMSb_zero zero)
next
  case False
  then have "(ucast y :: u32) \<noteq> 0"
    using ucast_zero_imp [of y, where 'b = 32] len by auto
  then have "highest_set_bit (ucast y :: u32) (FindMSb_u32 (ucast y))"
    by (rule FindMSb_u32_highest)
  moreover have "highest_set_bit (ucast y :: u32) q"
    using len hi [OF False] by (intro highest_set_bit_ucast) simp_all
  ultimately show ?thesis
    by (rule highest_set_bit_unique)
qed

lemma FindMSb_promoted_complement:
  "x8 <s 0 \<Longrightarrow> FindMSb_i8 x8 = FindMSb_i32 (NOT (promote Signed x8))"
  "x16 <s 0 \<Longrightarrow> FindMSb_i16 x16 = FindMSb_i32 (NOT (promote Signed x16))"
proof -
  assume neg: "x8 <s 0"
  have nn: "0 \<le>s (ucast (NOT x8) :: u32)"
    by (simp add: sle_zero_iff bit_simps)
  have "FindMSb_u32 (ucast (NOT x8)) = FindMSb_u8 (NOT x8)"
    by (rule FindMSb_u32_ucast)
      (auto simp add: FindMSb_zero intro: FindMSb_u8_highest highest_set_bit_unique)
  then show "FindMSb_i8 x8 = FindMSb_i32 (NOT (promote Signed x8))"
    using neg nn by (simp add: not_promote_negative FindMSb_signed_negative FindMSb_signed_nonneg)
next
  assume neg: "x16 <s 0"
  have nn: "0 \<le>s (ucast (NOT x16) :: u32)"
    by (simp add: sle_zero_iff bit_simps)
  have "FindMSb_u32 (ucast (NOT x16)) = FindMSb_u16 (NOT x16)"
    by (rule FindMSb_u32_ucast)
      (auto simp add: FindMSb_zero intro: FindMSb_u16_highest highest_set_bit_unique)
  then show "FindMSb_i16 x16 = FindMSb_i32 (NOT (promote Signed x16))"
    using neg nn by (simp add: not_promote_negative FindMSb_signed_negative FindMSb_signed_nonneg)
qed

text \<open>
  Claim C5.  For a signed \<open>v\<close> of width 8, 16, 32 or 64: if \<open>v >= 0\<close> then \<^verbatim>\<open>FindMSb(v)\<close>
  is the unsigned \<^verbatim>\<open>FindMSb\<close> of the bit pattern of \<open>v\<close>, and if \<open>v < 0\<close> it is the unsigned
  \<^verbatim>\<open>FindMSb\<close> of the bit pattern of \<^verbatim>\<open>~v\<close>.  In particular \<^verbatim>\<open>FindMSb(-1)\<close> is 0 and
  \<^verbatim>\<open>FindMSb(x) == FindMSb(~x)\<close> whenever \<open>x < 0\<close>, both with \<^verbatim>\<open>~x\<close> converted back to the
  type of \<open>x\<close> and, for the 8 and 16 bit types, with \<^verbatim>\<open>~x\<close> left as the \<^verbatim>\<open>int\<close> that the
  promotion makes of it, which selects the 32 bit overload.
\<close>

theorem FindMSb_signed:
  "((0 \<le>s x8 \<longrightarrow> FindMSb_i8 x8 = FindMSb_u8 x8) \<and>
    (0 \<le>s x16 \<longrightarrow> FindMSb_i16 x16 = FindMSb_u16 x16) \<and>
    (0 \<le>s x32 \<longrightarrow> FindMSb_i32 x32 = FindMSb_u32 x32) \<and>
    (0 \<le>s x64 \<longrightarrow> FindMSb_i64 x64 = FindMSb_u64 x64)) \<and>
   ((x8 <s 0 \<longrightarrow> FindMSb_i8 x8 = FindMSb_u8 (NOT x8)) \<and>
    (x16 <s 0 \<longrightarrow> FindMSb_i16 x16 = FindMSb_u16 (NOT x16)) \<and>
    (x32 <s 0 \<longrightarrow> FindMSb_i32 x32 = FindMSb_u32 (NOT x32)) \<and>
    (x64 <s 0 \<longrightarrow> FindMSb_i64 x64 = FindMSb_u64 (NOT x64))) \<and>
   (FindMSb_i8 (- 1) = 0 \<and> FindMSb_i16 (- 1) = 0 \<and>
    FindMSb_i32 (- 1) = 0 \<and> FindMSb_i64 (- 1) = 0) \<and>
   ((x8 <s 0 \<longrightarrow> FindMSb_i8 x8 = FindMSb_i8 (NOT x8)) \<and>
    (x16 <s 0 \<longrightarrow> FindMSb_i16 x16 = FindMSb_i16 (NOT x16)) \<and>
    (x32 <s 0 \<longrightarrow> FindMSb_i32 x32 = FindMSb_i32 (NOT x32)) \<and>
    (x64 <s 0 \<longrightarrow> FindMSb_i64 x64 = FindMSb_i64 (NOT x64))) \<and>
   ((x8 <s 0 \<longrightarrow> FindMSb_i8 x8 = FindMSb_i32 (NOT (promote Signed x8))) \<and>
    (x16 <s 0 \<longrightarrow> FindMSb_i16 x16 = FindMSb_i32 (NOT (promote Signed x16))))"
  by (intro conjI impI FindMSb_signed_nonneg FindMSb_signed_negative FindMSb_signed_minus_one
      FindMSb_signed_complement FindMSb_promoted_complement)

theorem FindMSb_signed_witness:
  "FindMSb_i8 64 = FindMSb_u8 64 \<and>
   FindMSb_i8 (- 65) = FindMSb_u8 (NOT (- 65)) \<and>
   FindMSb_i16 (- 16385) = FindMSb_u16 (NOT (- 16385)) \<and>
   FindMSb_i32 (- 1073741825) = FindMSb_u32 (NOT (- 1073741825)) \<and>
   FindMSb_i64 0xA000000000000000 = FindMSb_u64 (NOT 0xA000000000000000) \<and>
   FindMSb_i8 (- 65) = FindMSb_i8 (NOT (- 65)) \<and>
   FindMSb_i8 (- 65) = FindMSb_i32 (NOT (promote Signed (- 65 :: u8)))"
  using FindMSb_signed [of 64 0 0 0] 
    FindMSb_signed [of "- 65" "- 16385" "- 1073741825" "0xA000000000000000"]
  by (simp add: word_sle_eq word_sless_alt)


section \<open>Reversing the octets\<close>

lemma byte_masks_32:
  "(0x000000ff :: u32) = mask 8" "(0x0000ff00 :: u32) = push_bit 8 (mask 8)"
  "(0x00ff0000 :: u32) = push_bit 16 (mask 8)" "(0xff000000 :: u32) = push_bit 24 (mask 8)"
  by (simp_all add: mask_eq_exp_minus_1)

lemma byte_masks_64:
  "(0x00000000000000ff :: u64) = mask 8" "(0x000000000000ff00 :: u64) = push_bit 8 (mask 8)"
  "(0x0000000000ff0000 :: u64) = push_bit 16 (mask 8)"
  "(0x00000000ff000000 :: u64) = push_bit 24 (mask 8)"
  "(0x000000ff00000000 :: u64) = push_bit 32 (mask 8)"
  "(0x0000ff0000000000 :: u64) = push_bit 40 (mask 8)"
  "(0x00ff000000000000 :: u64) = push_bit 48 (mask 8)"
  "(0xff00000000000000 :: u64) = push_bit 56 (mask 8)"
  by (simp_all add: mask_eq_exp_minus_1)

lemma bit_byte_at: "bit (byte_at v i) m \<longleftrightarrow> m < 8 \<and> bit v (8 * i + m)"
  by (auto simp add: byte_at_def bit_simps)

lemma byte_at_swap32: "i < 4 \<Longrightarrow> byte_at (swap32 v) i = byte_at v (3 - i)"
  apply (rule bit_word_eqI)
  apply (simp only: swap32_def byte_masks_32)
  apply (simp add: bit_byte_at bit_simps)
  apply (cases "i = 0"; cases "i = 1"; cases "i = 2"; cases "i = 3"; simp)
  done

lemma byte_at_swap64: "i < 8 \<Longrightarrow> byte_at (swap64 v) i = byte_at v (7 - i)"
  apply (rule bit_word_eqI)
  apply (simp only: swap64_def byte_masks_64)
  apply (simp add: bit_byte_at bit_simps)
  apply (subgoal_tac "i \<in> {0, 1, 2, 3, 4, 5, 6, 7}")
   apply (elim insertE emptyE; simp)
  apply auto
  done

lemma byte_masks_int:
  "(0x00ff :: cint) = mask 8" "(0xff00 :: cint) = push_bit 8 (mask 8)"
  by (simp_all add: mask_eq_exp_minus_1)

lemma byte_at_swap16: "i < 2 \<Longrightarrow> byte_at (swap16 v) i = byte_at v (1 - i)"
  apply (rule bit_word_eqI)
  apply (simp only: swap16_def byte_masks_int promote_def signedness.case)
  apply (simp add: bit_byte_at bit_simps)
  apply (cases "i = 0"; cases "i = 1"; simp)
  done

lemma word_eq_bytesI:
  fixes x y :: "'a::len word"
  assumes "\<And>i. i < (LENGTH('a) + 7) div 8 \<Longrightarrow> byte_at x i = byte_at y i"
  shows "x = y"
proof (rule bit_word_eqI)
  fix n
  assume n: "n < LENGTH('a)"
  then have "n div 8 < (LENGTH('a) + 7) div 8"
    by arith
  then have "bit (byte_at x (n div 8)) (n mod 8) = bit (byte_at y (n div 8)) (n mod 8)"
    using assms by simp
  then show "bit x n = bit y n"
    by (simp add: bit_byte_at)
qed

lemma swap32_involution: "swap32 (swap32 v) = v"
  by (rule word_eq_bytesI) (simp add: byte_at_swap32)

lemma swap64_involution: "swap64 (swap64 v) = v"
  by (rule word_eq_bytesI) (simp add: byte_at_swap64)

lemma swap16_involution: "swap16 (swap16 v) = v"
  by (rule word_eq_bytesI) (simp add: byte_at_swap16)

lemma upt_bytes:
  "[0..<2] = [0, Suc 0]" "[0..<4] = [0, 1, 2, 3]" "[0..<8] = [0, 1, 2, 3, 4, 5, 6, 7]"
  by (simp_all add: upt_conv_Cons)

lemma bytes_of_u16: "bytes_of (x :: u16) = [byte_at x 0, byte_at x 1]"
  by (simp add: bytes_of_def upt_bytes)

lemma bytes_of_u32: "bytes_of (x :: u32) = [byte_at x 0, byte_at x 1, byte_at x 2, byte_at x 3]"
  by (simp add: bytes_of_def upt_bytes)

lemma bytes_of_u64:
  "bytes_of (x :: u64) = [byte_at x 0, byte_at x 1, byte_at x 2, byte_at x 3,
                          byte_at x 4, byte_at x 5, byte_at x 6, byte_at x 7]"
  by (simp add: bytes_of_def upt_bytes)

lemma bytes_of_swap16: "bytes_of (swap16 x) = rev (bytes_of x)"
  by (simp add: bytes_of_u16 byte_at_swap16)

lemma bytes_of_swap32: "bytes_of (swap32 x) = rev (bytes_of x)"
  by (simp add: bytes_of_u32 byte_at_swap32)

lemma bytes_of_swap64: "bytes_of (swap64 x) = rev (bytes_of x)"
  by (simp add: bytes_of_u64 byte_at_swap64)

lemma bytes_of_inject_u16: "bytes_of (x :: u16) = bytes_of y \<Longrightarrow> x = y"
proof (rule word_eq_bytesI)
  fix i
  assume "bytes_of x = bytes_of y" "i < (LENGTH(16) + 7) div 8"
  then have "i \<in> {0, 1}" "byte_at x 0 = byte_at y 0" "byte_at x 1 = byte_at y 1"
    by (auto simp add: bytes_of_u16)
  then show "byte_at x i = byte_at y i"
    by auto
qed

lemma bytes_of_inject_u32: "bytes_of (x :: u32) = bytes_of y \<Longrightarrow> x = y"
proof (rule word_eq_bytesI)
  fix i
  assume "bytes_of x = bytes_of y" "i < (LENGTH(32) + 7) div 8"
  then have "i \<in> {0, 1, 2, 3}" "byte_at x 0 = byte_at y 0" "byte_at x 1 = byte_at y 1"
    "byte_at x 2 = byte_at y 2" "byte_at x 3 = byte_at y 3"
    by (auto simp add: bytes_of_u32)
  then show "byte_at x i = byte_at y i"
    by auto
qed

lemma bytes_of_inject_u64: "bytes_of (x :: u64) = bytes_of y \<Longrightarrow> x = y"
proof (rule word_eq_bytesI)
  fix i
  assume "bytes_of x = bytes_of y" "i < (LENGTH(64) + 7) div 8"
  then have "i \<in> {0, 1, 2, 3, 4, 5, 6, 7}" "byte_at x 0 = byte_at y 0" "byte_at x 1 = byte_at y 1"
    "byte_at x 2 = byte_at y 2" "byte_at x 3 = byte_at y 3"
    "byte_at x 4 = byte_at y 4" "byte_at x 5 = byte_at y 5"
    "byte_at x 6 = byte_at y 6" "byte_at x 7 = byte_at y 7"
    by (auto simp add: bytes_of_u64)
  then show "byte_at x i = byte_at y i"
    by auto
qed

lemma swap16_fixed_iff: "swap16 x = x \<longleftrightarrow> palindromic_bytes x"
proof
  assume "swap16 x = x"
  then show "palindromic_bytes x"
    using bytes_of_swap16 [of x] by (simp add: palindromic_bytes_def)
next
  assume "palindromic_bytes x"
  then have "bytes_of (swap16 x) = bytes_of x"
    by (simp add: palindromic_bytes_def bytes_of_swap16)
  then show "swap16 x = x"
    by (rule bytes_of_inject_u16)
qed

lemma swap32_fixed_iff: "swap32 x = x \<longleftrightarrow> palindromic_bytes x"
proof
  assume "swap32 x = x"
  then show "palindromic_bytes x"
    using bytes_of_swap32 [of x] by (simp add: palindromic_bytes_def)
next
  assume "palindromic_bytes x"
  then have "bytes_of (swap32 x) = bytes_of x"
    by (simp add: palindromic_bytes_def bytes_of_swap32)
  then show "swap32 x = x"
    by (rule bytes_of_inject_u32)
qed

lemma swap64_fixed_iff: "swap64 x = x \<longleftrightarrow> palindromic_bytes x"
proof
  assume "swap64 x = x"
  then show "palindromic_bytes x"
    using bytes_of_swap64 [of x] by (simp add: palindromic_bytes_def)
next
  assume "palindromic_bytes x"
  then have "bytes_of (swap64 x) = bytes_of x"
    by (simp add: palindromic_bytes_def bytes_of_swap64)
  then show "swap64 x = x"
    by (rule bytes_of_inject_u64)
qed

lemma palindromic_u16_iff: "palindromic_bytes (x :: u16) \<longleftrightarrow> \<not> differing_bytes x"
  by (auto simp add: palindromic_bytes_def differing_bytes_def bytes_of_u16)

lemma palindromic_imp_not_all_differ:
  "\<not> palindromic_bytes (x :: u32) \<Longrightarrow> differing_bytes x"
  "\<not> palindromic_bytes (y :: u64) \<Longrightarrow> differing_bytes y"
  by (auto simp add: palindromic_bytes_def differing_bytes_def bytes_of_u32 bytes_of_u64)

lemma NetworkByteOrder_u16_eq:
  "NetworkByteOrder_u16 pf v =
     (if cpp_lib_endian pf \<and> \<not> IsLittleOrBigEndian pf then None
      else if IsBigEndian pf then Some v else Some (swap16 v))"
  by (simp add: NetworkByteOrder_u16_def swap16_def)

lemma NetworkByteOrder_u32_eq:
  "NetworkByteOrder_u32 pf v =
     (if cpp_lib_endian pf \<and> \<not> IsLittleOrBigEndian pf then None
      else if IsBigEndian pf then Some v else Some (swap32 v))"
  by (simp add: NetworkByteOrder_u32_def swap32_def)

lemma NetworkByteOrder_u64_eq:
  "NetworkByteOrder_u64 pf v =
     (if cpp_lib_endian pf \<and> \<not> IsLittleOrBigEndian pf then None
      else if IsBigEndian pf then Some v else Some (swap64 v))"
  by (simp add: NetworkByteOrder_u64_def swap64_def)

lemmas NetworkByteOrder_eq =
  NetworkByteOrder_u16_eq NetworkByteOrder_u32_eq NetworkByteOrder_u64_eq

lemma enumerators_differ: "Little_Endian \<noteq> Big_Endian"
  by (simp add: Little_Endian_def Big_Endian_def)

lemma IsBigEndian_imp: "IsBigEndian pf \<Longrightarrow> IsLittleOrBigEndian pf"
  by (simp add: IsBigEndian_def IsLittleOrBigEndian_def split: if_splits)

lemma IsLittleEndian_imp: "IsLittleEndian pf \<Longrightarrow> IsLittleOrBigEndian pf \<and> \<not> IsBigEndian pf"
  by (auto simp add: IsLittleEndian_def IsBigEndian_def IsLittleOrBigEndian_def
      enumerators_differ split: if_splits)

text \<open>
  Claim C6.  On a platform that is big endian or little endian \<^verbatim>\<open>NetworkByteOrder\<close> is an
  involution: for every 16, 32 or 64 bit value \<open>x\<close>, applying it twice returns \<open>x\<close>.
\<close>

theorem NetworkByteOrder_involution:
  "IsLittleOrBigEndian pf \<longrightarrow>
     Option.bind (NetworkByteOrder_u16 pf x16) (NetworkByteOrder_u16 pf) = Some x16 \<and>
     Option.bind (NetworkByteOrder_u32 pf x32) (NetworkByteOrder_u32 pf) = Some x32 \<and>
     Option.bind (NetworkByteOrder_u64 pf x64) (NetworkByteOrder_u64 pf) = Some x64"
  by (simp add: NetworkByteOrder_eq swap16_involution swap32_involution swap64_involution)

theorem NetworkByteOrder_involution_witness:
  "Option.bind (NetworkByteOrder_u16
       \<lparr>cpp_lib_endian = True, native = little, significance = little_endian_order\<rparr> 0x1234)
     (NetworkByteOrder_u16
       \<lparr>cpp_lib_endian = True, native = little, significance = little_endian_order\<rparr>)
     = Some 0x1234 \<and>
   Option.bind (NetworkByteOrder_u32
       \<lparr>cpp_lib_endian = False, native = little, significance = little_endian_order\<rparr>
       0x12345678)
     (NetworkByteOrder_u32
       \<lparr>cpp_lib_endian = False, native = little, significance = little_endian_order\<rparr>)
     = Some 0x12345678 \<and>
   Option.bind (NetworkByteOrder_u64
       \<lparr>cpp_lib_endian = False, native = big, significance = big_endian_order\<rparr>
       0x123456789abcdef0)
     (NetworkByteOrder_u64
       \<lparr>cpp_lib_endian = False, native = big, significance = big_endian_order\<rparr>)
     = Some 0x123456789abcdef0"
proof -
  have le: "IsLittleOrBigEndian
      \<lparr>cpp_lib_endian = True, native = little, significance = little_endian_order\<rparr>"
    by (simp add: IsLittleOrBigEndian_def)
  have le': "IsLittleOrBigEndian
      \<lparr>cpp_lib_endian = False, native = little, significance = little_endian_order\<rparr>"
    by (simp add: IsLittleOrBigEndian_def GetMachineEndian_def Machine_Endian_def
        DetermineMachineEndian_def Observed_Endianness_endian_def read_u32_def
        Observed_Endianness_octets_def little_endian_order_def Little_Endian_def)
  have be': "IsLittleOrBigEndian
      \<lparr>cpp_lib_endian = False, native = big, significance = big_endian_order\<rparr>"
    by (simp add: IsLittleOrBigEndian_def GetMachineEndian_def Machine_Endian_def
        DetermineMachineEndian_def Observed_Endianness_endian_def read_u32_def
        Observed_Endianness_octets_def big_endian_order_def Big_Endian_def)
  show ?thesis
    using NetworkByteOrder_involution [of _ "0x1234" "0x12345678" "0x123456789abcdef0"]
      le le' be'
    by blast
qed

text \<open>
  Claim C7, as amended.  On a big endian platform \<^verbatim>\<open>NetworkByteOrder(x)\<close> is \<open>x\<close> for every
  \<open>x\<close>.  On a little endian platform it is \<open>x\<close> with its bytes in reverse order, so it
  differs from \<open>x\<close> exactly when the byte sequence of \<open>x\<close> is not a palindrome: for a 16
  bit value exactly when its two bytes differ, and for a 32 or 64 bit value only if, but
  not whenever, \<open>x\<close> has differing bytes.
\<close>

theorem NetworkByteOrder_changes_value:
  "(IsBigEndian pf \<longrightarrow>
      NetworkByteOrder_u16 pf x16 = Some x16 \<and>
      NetworkByteOrder_u32 pf x32 = Some x32 \<and>
      NetworkByteOrder_u64 pf x64 = Some x64) \<and>
   (IsLittleEndian pf \<longrightarrow>
      (\<exists>y. NetworkByteOrder_u16 pf x16 = Some y \<and> bytes_of y = rev (bytes_of x16)) \<and>
      (\<exists>y. NetworkByteOrder_u32 pf x32 = Some y \<and> bytes_of y = rev (bytes_of x32)) \<and>
      (\<exists>y. NetworkByteOrder_u64 pf x64 = Some y \<and> bytes_of y = rev (bytes_of x64)) \<and>
      (NetworkByteOrder_u16 pf x16 \<noteq> Some x16 \<longleftrightarrow> differing_bytes x16) \<and>
      (NetworkByteOrder_u32 pf x32 \<noteq> Some x32 \<longleftrightarrow> \<not> palindromic_bytes x32) \<and>
      (NetworkByteOrder_u64 pf x64 \<noteq> Some x64 \<longleftrightarrow> \<not> palindromic_bytes x64) \<and>
      (NetworkByteOrder_u32 pf x32 \<noteq> Some x32 \<longrightarrow> differing_bytes x32) \<and>
      (NetworkByteOrder_u64 pf x64 \<noteq> Some x64 \<longrightarrow> differing_bytes x64))"
proof (intro conjI impI)
  assume be: "IsBigEndian pf"
  then have "IsLittleOrBigEndian pf"
    by (rule IsBigEndian_imp)
  with be show "NetworkByteOrder_u16 pf x16 = Some x16" "NetworkByteOrder_u32 pf x32 = Some x32"
    "NetworkByteOrder_u64 pf x64 = Some x64"
    by (simp_all add: NetworkByteOrder_eq)
next
  assume "IsLittleEndian pf"
  then have le: "IsLittleOrBigEndian pf" "\<not> IsBigEndian pf"
    using IsLittleEndian_imp [of pf] by simp_all
  have r16: "NetworkByteOrder_u16 pf x16 = Some (swap16 x16)"
    and r32: "NetworkByteOrder_u32 pf x32 = Some (swap32 x32)"
    and r64: "NetworkByteOrder_u64 pf x64 = Some (swap64 x64)"
    using le by (simp_all add: NetworkByteOrder_eq)
  show "\<exists>y. NetworkByteOrder_u16 pf x16 = Some y \<and> bytes_of y = rev (bytes_of x16)"
    by (simp add: r16 bytes_of_swap16)
  show "\<exists>y. NetworkByteOrder_u32 pf x32 = Some y \<and> bytes_of y = rev (bytes_of x32)"
    by (simp add: r32 bytes_of_swap32)
  show "\<exists>y. NetworkByteOrder_u64 pf x64 = Some y \<and> bytes_of y = rev (bytes_of x64)"
    by (simp add: r64 bytes_of_swap64)
  show "NetworkByteOrder_u16 pf x16 \<noteq> Some x16 \<longleftrightarrow> differing_bytes x16"
    by (simp add: r16 swap16_fixed_iff palindromic_u16_iff)
  show n32: "NetworkByteOrder_u32 pf x32 \<noteq> Some x32 \<longleftrightarrow> \<not> palindromic_bytes x32"
    by (simp add: r32 swap32_fixed_iff)
  show n64: "NetworkByteOrder_u64 pf x64 \<noteq> Some x64 \<longleftrightarrow> \<not> palindromic_bytes x64"
    by (simp add: r64 swap64_fixed_iff)
  show "differing_bytes x32" if "NetworkByteOrder_u32 pf x32 \<noteq> Some x32"
    using that n32 palindromic_imp_not_all_differ(1) by blast
  show "differing_bytes x64" if "NetworkByteOrder_u64 pf x64 \<noteq> Some x64"
    using that n64 palindromic_imp_not_all_differ(2) by blast
qed

theorem NetworkByteOrder_changes_value_witness:
  "NetworkByteOrder_u32
     \<lparr>cpp_lib_endian = True, native = big, significance = big_endian_order\<rparr> 0x12345678
     = Some 0x12345678 \<and>
   NetworkByteOrder_u16
     \<lparr>cpp_lib_endian = True, native = little, significance = little_endian_order\<rparr> 0x1234
     \<noteq> Some 0x1234 \<and>
   NetworkByteOrder_u32
     \<lparr>cpp_lib_endian = True, native = little, significance = little_endian_order\<rparr> 0x12345678
     \<noteq> Some 0x12345678"
proof -
  have be: "IsBigEndian
      \<lparr>cpp_lib_endian = True, native = big, significance = big_endian_order\<rparr>"
    by (simp add: IsBigEndian_def)
  have le: "IsLittleEndian
      \<lparr>cpp_lib_endian = True, native = little, significance = little_endian_order\<rparr>"
    by (simp add: IsLittleEndian_def)
  have d16: "differing_bytes (0x1234 :: u16)"
    by (auto simp add: differing_bytes_def bytes_of_u16 byte_at_def)
  have p32: "\<not> palindromic_bytes (0x12345678 :: u32)"
    by (simp add: palindromic_bytes_def bytes_of_u32 byte_at_def)
  show ?thesis
    using NetworkByteOrder_changes_value
        [of "\<lparr>cpp_lib_endian = True, native = big, significance = big_endian_order\<rparr>"
            "0x1234" "0x12345678" 0]
      NetworkByteOrder_changes_value
        [of "\<lparr>cpp_lib_endian = True, native = little, significance = little_endian_order\<rparr>"
            "0x1234" "0x12345678" 0]
      be le d16 p32
    by blast
qed

text \<open>
  Claim C7 as it is stated fails for the 32 and 64 bit overloads: on a little endian
  platform the bytes 01 02 02 01 of \<^verbatim>\<open>0x01020201\<close> are not all the same, and reversing
  them gives the same value.
\<close>

theorem NetworkByteOrder_palindrome_counterexample:
  "IsLittleEndian
     \<lparr>cpp_lib_endian = True, native = little, significance = little_endian_order\<rparr> \<and>
   differing_bytes (0x01020201 :: u32) \<and>
   NetworkByteOrder_u32
     \<lparr>cpp_lib_endian = True, native = little, significance = little_endian_order\<rparr>
     0x01020201 = Some 0x01020201"
  by (auto simp add: IsLittleEndian_def differing_bytes_def bytes_of_u32 byte_at_def
      NetworkByteOrder_u32_def IsLittleOrBigEndian_def IsBigEndian_def)

text \<open>
  Claim C8.  \<^verbatim>\<open>EndianClassification\<close> has exactly the four enumerators
  \<^verbatim>\<open>Big_Endian = 0x00010203\<close>, \<^verbatim>\<open>PDP_Endian = 0x01000302\<close>,
  \<^verbatim>\<open>Honeywell_Endian = 0x02030001\<close> and \<^verbatim>\<open>Little_Endian = 0x03020100\<close>, and each is the
  32 bit value read from the octets \<^verbatim>\<open>{0, 1, 2, 3}\<close> under the byte order it names, which
  is what \<^verbatim>\<open>DetermineMachineEndian\<close> returns on a platform of that byte order.
\<close>

theorem EndianClassification_encoding:
  "EndianClassification_enumerators = [0x00010203, 0x01000302, 0x02030001, 0x03020100] \<and>
   distinct EndianClassification_enumerators \<and>
   Big_Endian = 0x00010203 \<and> PDP_Endian = 0x01000302 \<and>
   Honeywell_Endian = 0x02030001 \<and> Little_Endian = 0x03020100 \<and>
   read_u32 big_endian_order Observed_Endianness_octets = Big_Endian \<and>
   read_u32 pdp_endian_order Observed_Endianness_octets = PDP_Endian \<and>
   read_u32 honeywell_endian_order Observed_Endianness_octets = Honeywell_Endian \<and>
   read_u32 little_endian_order Observed_Endianness_octets = Little_Endian \<and>
   DetermineMachineEndian (pf\<lparr>significance := big_endian_order\<rparr>) = Big_Endian \<and>
   DetermineMachineEndian (pf\<lparr>significance := pdp_endian_order\<rparr>) = PDP_Endian \<and>
   DetermineMachineEndian (pf\<lparr>significance := honeywell_endian_order\<rparr>) = Honeywell_Endian \<and>
   DetermineMachineEndian (pf\<lparr>significance := little_endian_order\<rparr>) = Little_Endian"
  by (simp add: EndianClassification_enumerators_def Big_Endian_def PDP_Endian_def
      Honeywell_Endian_def Little_Endian_def read_u32_def Observed_Endianness_octets_def
      big_endian_order_def pdp_endian_order_def honeywell_endian_order_def
      little_endian_order_def DetermineMachineEndian_def Observed_Endianness_endian_def)

end
